theory Spec2Isabelle
  imports Complex_Main "HOL-Library.Multiset" "HOL-Library.Sublist"
begin

section \<open>Analytics of the NSE data analyzer (src/main.py)\<close>

text \<open>
  The development embeds the three analytics methods of \<^verbatim>\<open>NSEDataAnalyzer\<close>:
  \<^verbatim>\<open>get_top_gainers_losers\<close>, \<^verbatim>\<open>get_52week_analysis\<close> and
  \<^verbatim>\<open>get_30day_returns\<close>.

  Numbers. The signatures of the source annotate prices and returns as Python
  \<^verbatim>\<open>float\<close>. A finite float is modelled by the rational it denotes: rounding is not
  modelled, so \<^verbatim>\<open>0.70\<close> is \<open>7/10\<close> and \<^verbatim>\<open>1.20\<close> is \<open>6/5\<close>. Division is
  Python's \<^verbatim>\<open>/\<close> on floats, which raises \<^verbatim>\<open>ZeroDivisionError\<close> when the divisor is
  zero. (Scalars read from a float64 column are numpy floats, whose division by zero yields
  an infinity or a NaN together with a warning instead of raising; a column of dtype object
  hands out plain Python floats. The two readings differ at a zero divisor only, and the
  statements below about every input name the divisor where it matters.)
\<close>

subsection \<open>Errors and prices\<close>

datatype py_error = KeyError | ValueError | IndexError | ZeroDivisionError

type_synonym price = rat

text \<open>Python's \<^verbatim>\<open>a / b\<close> on floats.\<close>

definition py_div :: "price \<Rightarrow> price \<Rightarrow> py_error + price" where
  "py_div a b = (if b = 0 then Inl ZeroDivisionError else Inr (a / b))"

text \<open>
  \<^verbatim>\<open>series.iloc[i]\<close>: positional access, a negative position counts from the end,
  a position out of range raises \<^verbatim>\<open>IndexError\<close>.
\<close>

definition iloc :: "'a list \<Rightarrow> int \<Rightarrow> py_error + 'a" where
  "iloc xs i =
     (if 0 \<le> i \<and> i < int (length xs) then Inr (xs ! nat i)
      else if i < 0 \<and> - i \<le> int (length xs) then Inr (xs ! (length xs - nat (- i)))
      else Inl IndexError)"

text \<open>Evaluating a list of fallible computations from left to right; the first error wins.\<close>

fun collect :: "(py_error + 'a) list \<Rightarrow> py_error + 'a list" where
  "collect [] = Inr []"
| "collect (Inl e # rs) = Inl e"
| "collect (Inr v # rs) = (case collect rs of Inl e \<Rightarrow> Inl e | Inr vs \<Rightarrow> Inr (v # vs))"

text \<open>
  Python's \<^verbatim>\<open>sorted(xs, key=..., reverse=...)\<close> once the keys have been computed: the
  sort is stable, and \<^verbatim>\<open>reverse=True\<close> keeps the original order of equal keys (the
  list is reversed before and after a stable ascending sort). \<open>sort_key\<close> is the stable
  insertion sort of the list library.
\<close>

definition py_sorted :: "'k::linorder list \<Rightarrow> bool \<Rightarrow> 'a list \<Rightarrow> 'a list" where
  "py_sorted ks reverse xs =
     (let dec = zip ks xs
      in map snd (if reverse then rev (sort_key fst (rev dec)) else sort_key fst dec))"

subsection \<open>Historical data\<close>

text \<open>
  \<^verbatim>\<open>hist_data: Dict[str, pd.DataFrame]\<close>. A dict is iterated in insertion order, so it is
  an association list (its keys are distinct). Of a frame only the row count and the
  \<^verbatim>\<open>Close\<close> column are read: \<open>Closes xs\<close> is a frame whose \<^verbatim>\<open>Close\<close> column holds
  \<open>xs\<close>, oldest first; \<open>NoClose n\<close> is a malformed frame of \<open>n\<close> rows that has other
  columns but none named \<^verbatim>\<open>Close\<close>.
\<close>

datatype hist_frame = NoClose nat | Closes "price list"

type_synonym hist_data = "(string \<times> hist_frame) list"

text \<open>\<^verbatim>\<open>df.shape[0]\<close> and \<^verbatim>\<open>df.empty\<close>.\<close>

fun nrows :: "hist_frame \<Rightarrow> nat" where
  "nrows (NoClose n) = n"
| "nrows (Closes xs) = length xs"

definition empty_frame :: "hist_frame \<Rightarrow> bool" where
  "empty_frame df = (nrows df = 0)"

text \<open>\<^verbatim>\<open>df["Close"]\<close>: a missing column raises \<^verbatim>\<open>KeyError\<close>.\<close>

fun close_column :: "hist_frame \<Rightarrow> py_error + price list" where
  "close_column (NoClose n) = Inl KeyError"
| "close_column (Closes xs) = Inr xs"

subsection \<open>\<^verbatim>\<open>get_52week_analysis\<close>\<close>

text \<open>An entry \<open>(sym, current_price, extreme)\<close>.\<close>

type_synonym entry = "string \<times> price \<times> price"

text \<open>
  The body of the \<^verbatim>\<open>try\<close> block for one symbol, on the two lists built so far. It is
  only run on a frame that is not empty, so \<^verbatim>\<open>max()\<close> and \<^verbatim>\<open>min()\<close> see a non-empty
  column.
\<close>

definition try_52week ::
  "string \<Rightarrow> hist_frame \<Rightarrow> entry list \<times> entry list \<Rightarrow> py_error + entry list \<times> entry list" where
  "try_52week symb df acc =
     (case close_column df of
        Inl e \<Rightarrow> Inl e
      | Inr col \<Rightarrow>
          (case iloc col (- 1) of
             Inl e \<Rightarrow> Inl e
           | Inr current_price \<Rightarrow>
               (let high_52w = Max (set col);
                    low_52w = Min (set col);
                    below_high = (if current_price \<le> (7 / 10) * high_52w
                                  then fst acc @ [(symb, current_price, high_52w)] else fst acc);
                    above_low = (if current_price \<ge> (6 / 5) * low_52w
                                 then snd acc @ [(symb, current_price, low_52w)] else snd acc)
                in Inr (below_high, above_low))))"

text \<open>
  One iteration of the loop: an empty frame is skipped, and an exception of the body is
  logged and the symbol skipped (\<^verbatim>\<open>except Exception: ... continue\<close>).
\<close>

definition step_52week ::
  "entry list \<times> entry list \<Rightarrow> string \<times> hist_frame \<Rightarrow> entry list \<times> entry list" where
  "step_52week acc item =
     (if empty_frame (snd item) then acc
      else (case try_52week (fst item) (snd item) acc of Inl e \<Rightarrow> acc | Inr acc' \<Rightarrow> acc'))"

text \<open>The whole loop: the candidates, before ranking.\<close>

definition scan_52week :: "hist_data \<Rightarrow> entry list \<times> entry list" where
  "scan_52week hist = foldl step_52week ([], []) hist"

text \<open>
  The ranking key \<^verbatim>\<open>x[1] / x[2]\<close>, and the two ranking lines after the loop. The keys are
  computed outside every \<^verbatim>\<open>try\<close>, so a failing division ends the call.
\<close>

definition ratio :: "entry \<Rightarrow> py_error + price" where
  "ratio x = py_div (fst (snd x)) (snd (snd x))"

definition rank_below_high :: "entry list \<Rightarrow> py_error + entry list" where
  "rank_below_high xs =
     (case collect (map ratio xs) of
        Inl e \<Rightarrow> Inl e
      | Inr ks \<Rightarrow> Inr (take 5 (py_sorted ks False xs)))"

definition rank_above_low :: "entry list \<Rightarrow> py_error + entry list" where
  "rank_above_low xs =
     (case collect (map ratio xs) of
        Inl e \<Rightarrow> Inl e
      | Inr ks \<Rightarrow> Inr (take 5 (py_sorted (map uminus ks) False xs)))"

definition get_52week_analysis :: "hist_data \<Rightarrow> py_error + entry list \<times> entry list" where
  "get_52week_analysis hist =
     (let acc = scan_52week hist
      in case rank_below_high (fst acc) of
           Inl e \<Rightarrow> Inl e
         | Inr below_high \<Rightarrow>
             (case rank_above_low (snd acc) of
                Inl e \<Rightarrow> Inl e
              | Inr above_low \<Rightarrow> Inr (below_high, above_low)))"

subsection \<open>\<^verbatim>\<open>get_30day_returns\<close>\<close>

text \<open>The body of the \<^verbatim>\<open>try\<close> block for one symbol of at least 30 rows.\<close>

definition try_30day :: "hist_frame \<Rightarrow> py_error + price" where
  "try_30day df =
     (case close_column df of
        Inl e \<Rightarrow> Inl e
      | Inr col \<Rightarrow>
          (case iloc col (- 1) of
             Inl e \<Rightarrow> Inl e
           | Inr current_price \<Rightarrow>
               (case iloc col (- 30) of
                  Inl e \<Rightarrow> Inl e
                | Inr price_30d_ago \<Rightarrow>
                    (case py_div (current_price - price_30d_ago) price_30d_ago of
                       Inl e \<Rightarrow> Inl e
                     | Inr q \<Rightarrow> Inr (q * 100)))))"

definition step_30day :: "(string \<times> price) list \<Rightarrow> string \<times> hist_frame \<Rightarrow> (string \<times> price) list" where
  "step_30day returns item =
     (if nrows (snd item) < 30 then returns
      else (case try_30day (snd item) of
              Inl e \<Rightarrow> returns
            | Inr ret \<Rightarrow> returns @ [(fst item, ret)]))"

definition get_30day_returns :: "hist_data \<Rightarrow> (string \<times> price) list" where
  "get_30day_returns hist =
     (let returns = foldl step_30day [] hist
      in py_sorted (map snd returns) True returns)"

subsection \<open>What one symbol contributes\<close>

text \<open>
  The loops only append, so each is the concatenation of what the single symbols contribute.
  These functions describe that contribution; the lemmas below relate them to the loops.
\<close>

definition below_high_of :: "string \<times> hist_frame \<Rightarrow> entry list" where
  "below_high_of item =
     (case snd item of
        NoClose n \<Rightarrow> []
      | Closes xs \<Rightarrow>
          (if xs \<noteq> [] \<and> last xs \<le> (7 / 10) * Max (set xs)
           then [(fst item, last xs, Max (set xs))] else []))"

definition above_low_of :: "string \<times> hist_frame \<Rightarrow> entry list" where
  "above_low_of item =
     (case snd item of
        NoClose n \<Rightarrow> []
      | Closes xs \<Rightarrow>
          (if xs \<noteq> [] \<and> last xs \<ge> (6 / 5) * Min (set xs)
           then [(fst item, last xs, Min (set xs))] else []))"

definition return_of :: "string \<times> hist_frame \<Rightarrow> (string \<times> price) list" where
  "return_of item =
     (case snd item of
        NoClose n \<Rightarrow> []
      | Closes xs \<Rightarrow>
          (if 30 \<le> length xs \<and> xs ! (length xs - 30) \<noteq> 0
           then [(fst item, (last xs - xs ! (length xs - 30)) / (xs ! (length xs - 30)) * 100)]
           else []))"

subsection \<open>Percent changes: float64 values\<close>

text \<open>
  After \<^verbatim>\<open>astype(float)\<close> the \<^verbatim>\<open>pChange\<close> column holds float64 values: NaN, or a value
  that is finite or an infinity. The values other than NaN are linearly ordered.
\<close>

datatype xrat = NegInf | Finite rat | PosInf

instantiation xrat :: linorder
begin

definition less_eq_xrat :: "xrat \<Rightarrow> xrat \<Rightarrow> bool" where
  "x \<le> y \<longleftrightarrow>
     (case x of
        NegInf \<Rightarrow> True
      | Finite a \<Rightarrow> (case y of NegInf \<Rightarrow> False | Finite b \<Rightarrow> a \<le> b | PosInf \<Rightarrow> True)
      | PosInf \<Rightarrow> y = PosInf)"

definition less_xrat :: "xrat \<Rightarrow> xrat \<Rightarrow> bool" where
  "x < y \<longleftrightarrow> x \<le> y \<and> \<not> y \<le> (x :: xrat)"

instance
  by standard (auto simp: less_eq_xrat_def less_xrat_def split: xrat.splits)

end

datatype float64 = NaN | Val xrat

text \<open>The comparison \<^verbatim>\<open>a <= b\<close> of two floats: false when either is NaN.\<close>

definition float_le :: "float64 \<Rightarrow> float64 \<Rightarrow> bool" where
  "float_le a b = (case (a, b) of (Val x, Val y) \<Rightarrow> x \<le> y | _ \<Rightarrow> False)"

subsection \<open>Python's \<^verbatim>\<open>float(str)\<close>\<close>

text \<open>
  \<^verbatim>\<open>astype(float)\<close> on a column of strings applies Python's \<^verbatim>\<open>float\<close> to each string.
  Its grammar (Python language reference, on ASCII): surrounding whitespace is dropped; an
  optional sign; then \<^verbatim>\<open>inf\<close>, \<^verbatim>\<open>infinity\<close> or \<^verbatim>\<open>nan\<close> in any case, or a decimal number:
  digits with single underscores between digits, an optional point and fraction (one of
  the two digit parts may be empty), an optional exponent. \<open>None\<close> is \<^verbatim>\<open>ValueError\<close>.
\<close>

definition is_digit :: "char \<Rightarrow> bool" where
  "is_digit c = (48 \<le> (of_char c :: nat) \<and> (of_char c :: nat) \<le> 57)"

definition is_space :: "char \<Rightarrow> bool" where
  "is_space c = ((of_char c :: nat) \<in> {9, 10, 11, 12, 13, 28, 29, 30, 31, 32})"

definition to_lower :: "char \<Rightarrow> char" where
  "to_lower c = (if 65 \<le> (of_char c :: nat) \<and> (of_char c :: nat) \<le> 90
                 then char_of (of_char c + 32 :: nat) else c)"

definition strip :: "string \<Rightarrow> string" where
  "strip s = rev (dropWhile is_space (rev (dropWhile is_space s)))"

text \<open>
  The longest prefix that is a digit part (digits, single underscores between two digits),
  without its underscores, and the rest of the string.
\<close>

fun digitpart :: "string \<Rightarrow> string \<times> string" where
  "digitpart [] = ([], [])"
| "digitpart (c # cs) =
     (if is_digit c then
        (case cs of
           u # d # ds \<Rightarrow>
             (if u = CHR ''_'' \<and> is_digit d
              then (let r = digitpart (d # ds) in (c # fst r, snd r))
              else (let r = digitpart cs in (c # fst r, snd r)))
         | _ \<Rightarrow> (let r = digitpart cs in (c # fst r, snd r)))
      else ([], c # cs))"

definition digits_value :: "string \<Rightarrow> nat" where
  "digits_value ds = foldl (\<lambda>n c. 10 * n + (of_char c - 48)) 0 ds"

definition split_sign :: "string \<Rightarrow> bool \<times> string" where
  "split_sign s =
     (case s of
        c # cs \<Rightarrow> (if c = CHR ''-'' then (True, cs) else if c = CHR ''+'' then (False, cs) else (False, s))
      | [] \<Rightarrow> (False, s))"

text \<open>
  What follows the digits: nothing, or an exponent \<^verbatim>\<open>e\<close>, sign, digit part up to the end of
  the string.
\<close>

definition exponent :: "string \<Rightarrow> int option" where
  "exponent s =
     (case s of
        [] \<Rightarrow> Some 0
      | c # cs \<Rightarrow>
          (if c = CHR ''e'' \<or> c = CHR ''E'' then
             (let sg = split_sign cs; r = digitpart (snd sg)
              in if fst r \<noteq> [] \<and> snd r = []
                 then Some (if fst sg then - int (digits_value (fst r)) else int (digits_value (fst r)))
                 else None)
           else None))"

definition floatnumber :: "string \<Rightarrow> rat option" where
  "floatnumber s =
     (let ip = digitpart s;
          fp = (case snd ip of
                  c # cs \<Rightarrow> if c = CHR ''.'' then digitpart cs else ([], snd ip)
                | [] \<Rightarrow> ([], []))
      in if fst ip = [] \<and> fst fp = [] then None
         else (case exponent (snd fp) of
                 None \<Rightarrow> None
               | Some e \<Rightarrow>
                   Some ((of_nat (digits_value (fst ip))
                          + of_nat (digits_value (fst fp)) / 10 ^ length (fst fp))
                         * (if e < 0 then 1 / 10 ^ nat (- e) else 10 ^ nat e))))"

definition py_float :: "string \<Rightarrow> float64 option" where
  "py_float s =
     (let sg = split_sign (strip s); body = map to_lower (snd sg)
      in if body = ''inf'' \<or> body = ''infinity'' then Some (Val (if fst sg then NegInf else PosInf))
         else if body = ''nan'' then Some NaN
         else (case floatnumber (snd sg) of
                 None \<Rightarrow> None
               | Some q \<Rightarrow> Some (Val (Finite (if fst sg then - q else q)))))"

subsection \<open>The live table\<close>

text \<open>
  \<^verbatim>\<open>live_df\<close> is a DataFrame. Of a row the model keeps its symbol, which stands for the
  row, and its \<^verbatim>\<open>pChange\<close> cell: a float (\<open>Num\<close>; a value that is missing in the frame is
  the float NaN), a string (\<open>Text\<close>) or Python's \<^verbatim>\<open>None\<close>. \<open>NoPChange\<close> is a table
  that has no \<^verbatim>\<open>pChange\<close> column.
\<close>

datatype cell = Num float64 | Text string | PyNone

type_synonym quote_row = "string \<times> cell"

datatype live_df = NoPChange "string list" | Quotes "quote_row list"

type_synonym float_row = "string \<times> float64"

fun symbols :: "live_df \<Rightarrow> string list" where
  "symbols (NoPChange syms) = syms"
| "symbols (Quotes rows) = map fst rows"

fun pchange_column :: "live_df \<Rightarrow> py_error + cell list" where
  "pchange_column (NoPChange syms) = Inl KeyError"
| "pchange_column (Quotes rows) = Inr (map snd rows)"

text \<open>
  \<^verbatim>\<open>.astype(str).str.replace('%', '').astype(float)\<close> on one cell. A string loses every
  \<^verbatim>\<open>%\<close> and is parsed. \<^verbatim>\<open>None\<close> becomes the string \<^verbatim>\<open>None\<close>, which is no float. A float is
  printed by \<^verbatim>\<open>repr\<close>, which has no \<^verbatim>\<open>%\<close> and parses back to the same float (NaN is printed
  \<^verbatim>\<open>nan\<close> and parsed to NaN), so it is returned as it is. The column is converted from the
  first row on, and the first cell that fails raises.
\<close>

fun to_float :: "cell \<Rightarrow> py_error + float64" where
  "to_float (Num v) = Inr v"
| "to_float (Text s) =
     (case py_float (filter (\<lambda>c. c \<noteq> CHR ''%'') s) of
        None \<Rightarrow> Inl ValueError
      | Some v \<Rightarrow> Inr v)"
| "to_float PyNone = Inl ValueError"

definition astype_float :: "cell list \<Rightarrow> py_error + float64 list" where
  "astype_float col = collect (map to_float col)"

subsection \<open>\<^verbatim>\<open>sort_values\<close> and \<^verbatim>\<open>get_top_gainers_losers\<close>\<close>

text \<open>
  \<^verbatim>\<open>sort_values("pChange", ascending=...)\<close> is called with the default
  \<^verbatim>\<open>kind='quicksort'\<close>. The sorting algorithm is numpy's, not this repository's, and the
  library promises of it only that it sorts (of the kinds, pandas documents
  \<^verbatim>\<open>mergesort\<close> and \<^verbatim>\<open>stable\<close> as the stable ones). So the algorithm is a parameter of the
  model: an argsort takes the keys and returns the positions in sorted order.
  \<open>argsort_ok\<close> is what every kind provides; \<open>stable_argsort\<close> is \<^verbatim>\<open>kind='stable'\<close>.
\<close>

type_synonym argsort = "xrat list \<Rightarrow> nat list"

definition stable_argsort :: argsort where
  "stable_argsort ks = sort_key (\<lambda>i. ks ! i) [0..<length ks]"

definition argsort_ok :: "argsort \<Rightarrow> bool" where
  "argsort_ok kind =
     (\<forall>ks. mset (kind ks) = mset [0..<length ks] \<and> sorted (map (\<lambda>i. ks ! i) (kind ks)))"

text \<open>
  pandas sorts one column in this way (\<^verbatim>\<open>nargsort\<close>): the rows whose key is NaN are set
  aside and come last in their original order (\<^verbatim>\<open>na_position='last'\<close>); the other rows
  are argsorted, and for a descending sort they are reversed before and the result is
  reversed after; the frame's rows are then taken in that order.
\<close>

definition take_rows :: "nat list \<Rightarrow> 'a list \<Rightarrow> 'a list" where
  "take_rows indexer rows = map (\<lambda>i. rows ! i) indexer"

fun valued :: "float_row list \<Rightarrow> (string \<times> xrat) list" where
  "valued [] = []"
| "valued ((s, NaN) # rows) = valued rows"
| "valued ((s, Val x) # rows) = (s, x) # valued rows"

definition missing :: "float_row list \<Rightarrow> float_row list" where
  "missing rows = filter (\<lambda>r. snd r = NaN) rows"

definition with_value :: "string \<times> xrat \<Rightarrow> float_row" where
  "with_value r = (fst r, Val (snd r))"

definition sort_values :: "argsort \<Rightarrow> bool \<Rightarrow> float_row list \<Rightarrow> float_row list" where
  "sort_values kind ascending rows =
     (let non_nans = (if ascending then valued rows else rev (valued rows));
          sorted_rows = take_rows (kind (map snd non_nans)) non_nans
      in map with_value (if ascending then sorted_rows else rev sorted_rows) @ missing rows)"

text \<open>
  The method. \<^verbatim>\<open>live_df["pChange"]\<close> raises \<^verbatim>\<open>KeyError\<close> without the column; the conversion
  may raise; the handler logs and raises again. The assignment
  \<^verbatim>\<open>live_df["pChange"] = ...\<close> writes the converted column into the caller's table, so the
  table after the call is returned with the result. \<^verbatim>\<open>head(5)\<close> keeps the first 5 rows.
\<close>

definition get_top_gainers_losers ::
  "argsort \<Rightarrow> live_df \<Rightarrow> live_df \<times> (py_error + float_row list \<times> float_row list)" where
  "get_top_gainers_losers kind live_df =
     (case pchange_column live_df of
        Inl e \<Rightarrow> (live_df, Inl e)
      | Inr col \<Rightarrow>
          (case astype_float col of
             Inl e \<Rightarrow> (live_df, Inl e)
           | Inr vs \<Rightarrow>
               (let rows = zip (symbols live_df) vs;
                    gainers = take 5 (sort_values kind False rows);
                    losers = take 5 (sort_values kind True rows)
                in (Quotes (map (\<lambda>r. (fst r, Num (snd r))) rows), Inr (gainers, losers)))))"

section \<open>Properties of the historical analyses\<close>

subsection \<open>The loops\<close>

lemma iloc_last: "xs \<noteq> [] \<Longrightarrow> iloc xs (- 1) = Inr (last xs)"
  by (simp add: iloc_def last_conv_nth Suc_leI)

lemma iloc_30: "30 \<le> length xs \<Longrightarrow> iloc xs (- 30) = Inr (xs ! (length xs - 30))"
  by (simp add: iloc_def)

lemma step_52week_eq:
  "step_52week acc item = (fst acc @ below_high_of item, snd acc @ above_low_of item)"
proof (cases "snd item")
  case (NoClose n)
  then show ?thesis
    by (simp add: step_52week_def try_52week_def below_high_of_def above_low_of_def)
next
  case (Closes xs)
  then show ?thesis
    by (cases "xs = []")
      (simp_all add: step_52week_def try_52week_def below_high_of_def above_low_of_def
        empty_frame_def iloc_last Let_def)
qed

lemma foldl_step_52week:
  "foldl step_52week acc hist =
     (fst acc @ concat (map below_high_of hist), snd acc @ concat (map above_low_of hist))"
  by (induction hist arbitrary: acc) (simp_all add: step_52week_eq)

lemma scan_52week_eq:
  "scan_52week hist = (concat (map below_high_of hist), concat (map above_low_of hist))"
  by (simp add: scan_52week_def foldl_step_52week)

lemma step_30day_eq: "step_30day returns item = returns @ return_of item"
proof (cases "snd item")
  case (NoClose n)
  then show ?thesis by (simp add: step_30day_def try_30day_def return_of_def)
next
  case (Closes xs)
  show ?thesis
  proof (cases "30 \<le> length xs")
    case True
    then have "xs \<noteq> []" by auto
    with True Closes show ?thesis
      by (simp add: step_30day_def try_30day_def return_of_def iloc_last iloc_30 py_div_def)
  next
    case False
    with Closes show ?thesis by (simp add: step_30day_def return_of_def)
  qed
qed

lemma foldl_step_30day: "foldl step_30day acc hist = acc @ concat (map return_of hist)"
  by (induction hist arbitrary: acc) (simp_all add: step_30day_eq)

lemma mset_py_sorted:
  "length ks = length xs \<Longrightarrow> mset (py_sorted ks reverse xs) = mset xs"
proof -
  assume len: "length ks = length xs"
  have "mset (py_sorted ks reverse xs) = mset (map snd (zip ks xs))"
    by (simp add: py_sorted_def Let_def)
  with len show ?thesis by simp
qed

lemma set_py_sorted: "length ks = length xs \<Longrightarrow> set (py_sorted ks reverse xs) = set xs"
  using mset_py_sorted [of ks xs reverse] by (metis set_mset_mset)

lemma keys_of_decorated:
  "set ys \<subseteq> set (zip (map f xs) xs) \<Longrightarrow> map f (map snd ys) = map fst ys"
proof (induction ys)
  case Nil
  then show ?case by simp
next
  case (Cons y ys)
  then have "y \<in> set (zip (map f xs) xs)" by simp
  then have "fst y = f (snd y)"
    by (auto simp: in_set_zip)
  with Cons show ?case by simp
qed

lemma py_sorted_ascending: "sorted (map f (py_sorted (map f xs) False xs))"
proof -
  have "map f (map snd (sort_key fst (zip (map f xs) xs))) = map fst (sort_key fst (zip (map f xs) xs))"
    by (rule keys_of_decorated [where xs = xs]) simp
  then show ?thesis
    by (simp add: py_sorted_def del: map_map)
qed


lemma collect_map_Inr:
  "collect (map f xs) = Inr ks \<Longrightarrow> length ks = length xs"
proof (induction xs arbitrary: ks)
  case Nil
  then show ?case by simp
next
  case (Cons x xs)
  then show ?case
    by (cases "f x"; cases "collect (map f xs)") auto
qed

lemma collect_ratio:
  "\<forall>x\<in>set xs. snd (snd x) \<noteq> 0 \<Longrightarrow>
     collect (map ratio xs) = Inr (map (\<lambda>x. fst (snd x) / snd (snd x)) xs)"
  by (induction xs) (simp_all add: ratio_def py_div_def)

lemma rank_below_high_subset: "rank_below_high xs = Inr ys \<Longrightarrow> set ys \<subseteq> set xs"
  by (auto simp: rank_below_high_def split: sum.splits
      dest!: collect_map_Inr in_set_takeD simp: set_py_sorted)

lemma rank_above_low_subset: "rank_above_low xs = Inr ys \<Longrightarrow> set ys \<subseteq> set xs"
  by (auto simp: rank_above_low_def split: sum.splits
      dest!: collect_map_Inr in_set_takeD simp: set_py_sorted)

lemma get_52week_analysis_subset:
  assumes "get_52week_analysis hist = Inr (bh, al)"
  shows "set bh \<subseteq> set (fst (scan_52week hist))" and "set al \<subseteq> set (snd (scan_52week hist))"
  using assms rank_below_high_subset rank_above_low_subset
  by (auto simp: get_52week_analysis_def Let_def split: sum.splits)

lemma below_high_of_fst: "e \<in> set (below_high_of item) \<Longrightarrow> fst e = fst item"
  by (auto simp: below_high_of_def split: hist_frame.splits if_splits)

lemma above_low_of_fst: "e \<in> set (above_low_of item) \<Longrightarrow> fst e = fst item"
  by (auto simp: above_low_of_def split: hist_frame.splits if_splits)

lemma return_of_fst: "e \<in> set (return_of item) \<Longrightarrow> fst e = fst item"
  by (auto simp: return_of_def split: hist_frame.splits if_splits)

text \<open>With distinct keys, the entries of a symbol come from its own frame only.\<close>

lemma entries_of_symbol:
  assumes d: "distinct (map fst hist)" and m: "(s, df) \<in> set hist"
    and g: "\<And>e item. e \<in> set (g item) \<Longrightarrow> fst e = fst item"
  shows "filter (\<lambda>e. fst e = s) (concat (map g hist)) = g (s, df)"
  using d m
proof (induction hist)
  case Nil
  then show ?case by simp
next
  case (Cons item hist)
  have own: "filter (\<lambda>e. fst e = s) (g (s, df)) = g (s, df)"
    by (rule filter_True) (auto dest: g)
  show ?case
  proof (cases "item = (s, df)")
    case True
    with Cons.prems have "s \<notin> fst ` set hist" by auto
    then have "filter (\<lambda>e. fst e = s) (concat (map g hist)) = []"
      by (auto simp: filter_empty_conv dest!: g)
    with True own show ?thesis by simp
  next
    case False
    with Cons.prems have in_tl: "(s, df) \<in> set hist" by simp
    then have "s \<in> fst ` set hist" by force
    with Cons.prems have "fst item \<noteq> s" by auto
    then have "filter (\<lambda>e. fst e = s) (g item) = []"
      by (auto simp: filter_empty_conv dest: g)
    with Cons in_tl show ?thesis by simp
  qed
qed

lemma symbol_in_entries:
  "s \<in> fst ` set xs \<longleftrightarrow> filter (\<lambda>e. fst e = s) xs \<noteq> []"
  by (auto simp: filter_empty_conv)

lemma below_high_of_symbol:
  "distinct (map fst hist) \<Longrightarrow> (s, df) \<in> set hist \<Longrightarrow>
     filter (\<lambda>e. fst e = s) (fst (scan_52week hist)) = below_high_of (s, df)"
  using entries_of_symbol [of hist s df below_high_of]
  by (simp add: scan_52week_eq below_high_of_fst)

lemma above_low_of_symbol:
  "distinct (map fst hist) \<Longrightarrow> (s, df) \<in> set hist \<Longrightarrow>
     filter (\<lambda>e. fst e = s) (snd (scan_52week hist)) = above_low_of (s, df)"
  using entries_of_symbol [of hist s df above_low_of]
  by (simp add: scan_52week_eq above_low_of_fst)

lemma return_of_symbol:
  "distinct (map fst hist) \<Longrightarrow> (s, df) \<in> set hist \<Longrightarrow>
     filter (\<lambda>e. fst e = s) (concat (map return_of hist)) = return_of (s, df)"
  using entries_of_symbol [of hist s df return_of]
  by (simp add: return_of_fst)

lemma below_high_of_extreme:
  assumes "e \<in> set (below_high_of item)"
  obtains xs where "snd item = Closes xs" and "xs \<noteq> []" and "snd (snd e) = Max (set xs)"
  using assms by (cases "snd item") (auto simp: below_high_of_def split: if_splits)

lemma above_low_of_extreme:
  assumes "e \<in> set (above_low_of item)"
  obtains xs where "snd item = Closes xs" and "xs \<noteq> []" and "snd (snd e) = Min (set xs)"
  using assms by (cases "snd item") (auto simp: above_low_of_def split: if_splits)

lemma get_30day_returns_mset:
  "mset (get_30day_returns hist) = mset (concat (map return_of hist))"
  by (simp add: get_30day_returns_def Let_def mset_py_sorted foldl_step_30day)

lemma filter_get_30day_returns:
  "length (filter P (get_30day_returns hist)) = length (filter P (concat (map return_of hist)))"
proof -
  have "mset (filter P (get_30day_returns hist)) = mset (filter P (concat (map return_of hist)))"
    by (simp only: mset_filter get_30day_returns_mset)
  then show ?thesis by (metis size_mset)
qed


lemma symbol_in_entries_length:
  "s \<in> fst ` set xs \<longleftrightarrow> length (filter (\<lambda>e. fst e = s) xs) \<noteq> 0"
  by (simp add: symbol_in_entries)

subsection \<open>Evaluation on concrete tables\<close>

lemmas eval_52week = get_52week_analysis_def scan_52week_def step_52week_def empty_frame_def
  try_52week_def iloc_def rank_below_high_def rank_above_low_def ratio_def py_div_def py_sorted_def Let_def

lemmas eval_30day = get_30day_returns_def step_30day_def try_30day_def iloc_def py_div_def
  py_sorted_def Let_def

section \<open>Claims about the historical analyses\<close>

text \<open>
  Claim C3, as amended. For a symbol whose series has last close = maximum close = minimum
  close and whose price is strictly positive, \<^verbatim>\<open>get_52week_analysis\<close> puts the symbol in
  neither list: it is no candidate of the loop, and it is in neither returned list.
  (The keys of the dict are distinct.)
\<close>

theorem flat_series_in_neither_set:
  "distinct (map fst hist) \<Longrightarrow> (s, Closes xs) \<in> set hist \<Longrightarrow> xs \<noteq> [] \<Longrightarrow>
   last xs = Max (set xs) \<Longrightarrow> last xs = Min (set xs) \<Longrightarrow> 0 < last xs \<Longrightarrow>
     s \<notin> fst ` set (fst (scan_52week hist)) \<and> s \<notin> fst ` set (snd (scan_52week hist)) \<and>
     (\<forall>bh al. get_52week_analysis hist = Inr (bh, al) \<longrightarrow>
        s \<notin> fst ` set bh \<and> s \<notin> fst ` set al)"
proof -
  assume d: "distinct (map fst hist)" and m: "(s, Closes xs) \<in> set hist" and ne: "xs \<noteq> []"
    and hi: "last xs = Max (set xs)" and lo: "last xs = Min (set xs)" and pos: "0 < last xs"
  have bh: "filter (\<lambda>e. fst e = s) (fst (scan_52week hist)) = below_high_of (s, Closes xs)"
    using d m by (rule below_high_of_symbol)
  have al: "filter (\<lambda>e. fst e = s) (snd (scan_52week hist)) = above_low_of (s, Closes xs)"
    using d m by (rule above_low_of_symbol)
  from pos have "\<not> last xs \<le> (7 / 10) * last xs" and "\<not> (6 / 5) * last xs \<le> last xs"
    by simp_all
  with hi lo have "below_high_of (s, Closes xs) = []" and "above_low_of (s, Closes xs) = []"
    by (simp_all add: below_high_of_def above_low_of_def)
  with bh al have cand: "s \<notin> fst ` set (fst (scan_52week hist))" "s \<notin> fst ` set (snd (scan_52week hist))"
    by (simp_all add: symbol_in_entries)
  with get_52week_analysis_subset [of hist] show ?thesis
    by blast
qed

theorem flat_series_in_neither_set_witness:
  "distinct (map fst [(''K'', Closes [5, 5])]) \<and> (''K'', Closes [5, 5]) \<in> set [(''K'', Closes [5, 5])]
   \<and> [5, 5 :: rat] \<noteq> [] \<and> last [5, 5 :: rat] = Max (set [5, 5]) \<and> last [5, 5 :: rat] = Min (set [5, 5])
   \<and> 0 < last [5, 5 :: rat]
   \<and> get_52week_analysis [(''K'', Closes [5, 5])] = Inr ([], [])
   \<and> ''K'' \<notin> fst ` set (fst (scan_52week [(''K'', Closes [5, 5])]))"
  using flat_series_in_neither_set [of "[(''K'', Closes [5, 5])]" "''K''" "[5, 5]"] by (simp add: eval_52week)

text \<open>
  Claim C3 as stated, for every series, fails: the comparisons are \<open>p \<le> 0.70 p\<close> and
  \<open>p \<ge> 1.20 p\<close>, which hold when \<open>p\<close> is not positive. A one-day series at \<open>-1\<close> is
  returned in both lists, and one at 0 is a candidate of the loop for both.
\<close>

theorem flat_series_in_neither_set_counterexample:
  "last [- 1 :: rat] = Max (set [- 1]) \<and> last [- 1 :: rat] = Min (set [- 1]) \<and>
   get_52week_analysis [(''X'', Closes [- 1])] = Inr ([(''X'', - 1, - 1)], [(''X'', - 1, - 1)]) \<and>
   scan_52week [(''Z'', Closes [0])] = ([(''Z'', 0, 0)], [(''Z'', 0, 0)])"
  by (simp add: eval_52week)



text \<open>
  Claim C6, as amended. A symbol whose frame has fewer than 30 rows gets no entry from
  \<^verbatim>\<open>get_30day_returns\<close> (and nothing is raised: the function returns a list); a series
  of at least 30 closes whose close at index length - 30 is not zero gets exactly one.
\<close>

theorem thirty_observations_threshold:
  "distinct (map fst hist) \<Longrightarrow> (s, df) \<in> set hist \<Longrightarrow>
     (nrows df < 30 \<longrightarrow> s \<notin> fst ` set (get_30day_returns hist)) \<and>
     (\<forall>xs. df = Closes xs \<and> 30 \<le> length xs \<and> xs ! (length xs - 30) \<noteq> 0 \<longrightarrow>
        length (filter (\<lambda>e. fst e = s) (get_30day_returns hist)) = 1)"
proof -
  assume d: "distinct (map fst hist)" and m: "(s, df) \<in> set hist"
  have own: "filter (\<lambda>e. fst e = s) (concat (map return_of hist)) = return_of (s, df)"
    using d m by (rule return_of_symbol)
  have n: "length (filter (\<lambda>e. fst e = s) (get_30day_returns hist)) = length (return_of (s, df))"
    by (simp add: filter_get_30day_returns own)
  show ?thesis
    unfolding symbol_in_entries_length n
    by (cases df) (simp_all add: return_of_def)
qed

theorem thirty_observations_threshold_witness:
  "distinct (map fst [(''L'', Closes (replicate 29 2)), (''M'', Closes (replicate 30 2))]) \<and>
   (''L'', Closes (replicate 29 2)) \<in> set [(''L'', Closes (replicate 29 2)), (''M'', Closes (replicate 30 2))] \<and>
   nrows (Closes (replicate 29 2)) < 30 \<and>
   ''L'' \<notin> fst ` set (get_30day_returns [(''L'', Closes (replicate 29 2)), (''M'', Closes (replicate 30 2))]) \<and>
   (''M'', Closes (replicate 30 2)) \<in> set [(''L'', Closes (replicate 29 2)), (''M'', Closes (replicate 30 2))] \<and>
   30 \<le> length (replicate 30 (2 :: rat)) \<and> replicate 30 (2 :: rat) ! (length (replicate 30 (2 :: rat)) - 30) \<noteq> 0 \<and>
   length (filter (\<lambda>e. fst e = ''M'')
     (get_30day_returns [(''L'', Closes (replicate 29 2)), (''M'', Closes (replicate 30 2))])) = 1"
  using thirty_observations_threshold [of "[(''L'', Closes (replicate 29 2)), (''M'', Closes (replicate 30 2))]" "''L''" "Closes (replicate 29 2)"]
    thirty_observations_threshold [of "[(''L'', Closes (replicate 29 2)), (''M'', Closes (replicate 30 2))]" "''M''" "Closes (replicate 30 2)"]
  by simp

text \<open>
  Claim C6 as stated, exactly one entry for every series of length 30, fails on Python
  floats when the close 30 observations back is zero: the division raises inside the
  \<^verbatim>\<open>try\<close>, the handler skips the symbol, and the series of length 30 gets no entry.
\<close>

theorem thirty_observations_threshold_counterexample:
  "length (replicate 30 (0 :: rat)) = 30 \<and> get_30day_returns [(''X'', Closes (replicate 30 0))] = []"
  by (simp add: eval_30day)



text \<open>
  Claim C9: a defect of the code. The handler of \<^verbatim>\<open>get_52week_analysis\<close> covers the loop
  body only. A symbol whose closes are the Python float 0.0 passes both comparisons
  (\<open>0 \<le> 0.70 \<times> 0\<close>), and its ranking key \<open>0 / 0\<close>, computed after the loop, raises
  \<^verbatim>\<open>ZeroDivisionError\<close>: the call ends with the error, and the result of the other symbol,
  which the call returns when it is alone, is lost. \<^verbatim>\<open>get_30day_returns\<close> divides inside
  its \<^verbatim>\<open>try\<close>: there the same symbol is skipped and the other one is returned.
\<close>

theorem zero_price_aborts_52week:
  "get_52week_analysis [(''A'', Closes [100, 50]), (''X'', Closes [0])] = Inl ZeroDivisionError \<and>
   get_52week_analysis [(''A'', Closes [100, 50])] = Inr ([(''A'', 50, 100)], []) \<and>
   get_30day_returns [(''A'', Closes (replicate 29 100 @ [110])), (''X'', Closes (replicate 30 0))]
     = [(''A'', 10)]"
  by (simp add: eval_52week eval_30day nth_append)

text \<open>
  Claim C10. When every non-empty series has a strictly positive maximum and minimum close,
  \<^verbatim>\<open>get_52week_analysis\<close> returns its two lists: no ranking key divides by zero.
\<close>

theorem get_52week_analysis_total:
  "\<forall>item\<in>set hist. \<forall>xs. snd item = Closes xs \<and> xs \<noteq> [] \<longrightarrow> 0 < Max (set xs) \<and> 0 < Min (set xs) \<Longrightarrow>
     \<exists>below_high above_low. get_52week_analysis hist = Inr (below_high, above_low)"
proof -
  assume pos: "\<forall>item\<in>set hist. \<forall>xs. snd item = Closes xs \<and> xs \<noteq> [] \<longrightarrow> 0 < Max (set xs) \<and> 0 < Min (set xs)"
  have "snd (snd e) \<noteq> 0" if "e \<in> set (fst (scan_52week hist))" for e
  proof -
    from that obtain item where i: "item \<in> set hist" and e: "e \<in> set (below_high_of item)"
      by (auto simp: scan_52week_eq)
    from e obtain xs where "snd item = Closes xs" "xs \<noteq> []" "snd (snd e) = Max (set xs)"
      by (rule below_high_of_extreme)
    with pos i show ?thesis by fastforce
  qed
  then have bh: "collect (map ratio (fst (scan_52week hist))) =
      Inr (map (\<lambda>x. fst (snd x) / snd (snd x)) (fst (scan_52week hist)))"
    by (intro collect_ratio ballI)
  have "snd (snd e) \<noteq> 0" if "e \<in> set (snd (scan_52week hist))" for e
  proof -
    from that obtain item where i: "item \<in> set hist" and e: "e \<in> set (above_low_of item)"
      by (auto simp: scan_52week_eq)
    from e obtain xs where "snd item = Closes xs" "xs \<noteq> []" "snd (snd e) = Min (set xs)"
      by (rule above_low_of_extreme)
    with pos i show ?thesis by fastforce
  qed
  then have al: "collect (map ratio (snd (scan_52week hist))) =
      Inr (map (\<lambda>x. fst (snd x) / snd (snd x)) (snd (scan_52week hist)))"
    by (intro collect_ratio ballI)
  show ?thesis
    by (simp add: get_52week_analysis_def rank_below_high_def rank_above_low_def bh al Let_def)
qed

theorem get_52week_analysis_total_witness:
  "0 < Max (set [100, 50 :: rat]) \<and> 0 < Min (set [100, 50 :: rat]) \<and>
   (\<exists>below_high above_low.
      get_52week_analysis [(''A'', Closes [100, 50]), (''B'', NoClose 3), (''C'', Closes [])] =
        Inr (below_high, above_low)) \<and>
   get_52week_analysis [(''A'', Closes [100, 50]), (''B'', NoClose 3), (''C'', Closes [])] =
     Inr ([(''A'', 50, 100)], [])"
  using get_52week_analysis_total [of "[(''A'', Closes [100, 50]), (''B'', NoClose 3), (''C'', Closes [])]"]
  by (simp add: eval_52week)

section \<open>Properties of the live table analysis\<close>

subsection \<open>Conversion\<close>


subsection \<open>Reordering by an argsort\<close>

lemma mset_take_rows:
  assumes "mset indexer = mset [0..<length rows]"
  shows "mset (take_rows indexer rows) = mset rows"
proof -
  have "mset (take_rows indexer rows) = image_mset (\<lambda>i. rows ! i) (mset indexer)"
    by (simp add: take_rows_def)
  also have "\<dots> = mset (map (\<lambda>i. rows ! i) [0..<length rows])"
    by (simp add: assms)
  finally show ?thesis by (simp add: map_nth)
qed

lemma keys_take_rows:
  assumes "set indexer \<subseteq> {0..<length rows}"
  shows "map f (take_rows indexer rows) = map (\<lambda>i. map f rows ! i) indexer"
  using assms by (auto simp: take_rows_def)

lemma argsort_ok_mset:
  "argsort_ok kind \<Longrightarrow> mset (take_rows (kind (map snd rows)) rows) = mset rows"
  by (rule mset_take_rows) (simp add: argsort_ok_def)

lemma argsort_ok_sorted:
  assumes "argsort_ok kind"
  shows "sorted (map snd (take_rows (kind (map snd rows)) rows))"
proof -
  from assms have m: "mset (kind (map snd rows)) = mset [0..<length rows]"
    and s: "sorted (map (\<lambda>i. map snd rows ! i) (kind (map snd rows)))"
    by (simp_all add: argsort_ok_def)
  from m have "set (kind (map snd rows)) = {0..<length rows}"
    by (metis set_mset_mset set_upt)
  then have "map snd (take_rows (kind (map snd rows)) rows)
      = map (\<lambda>i. map snd rows ! i) (kind (map snd rows))"
    by (intro keys_take_rows) simp
  with s show ?thesis by simp
qed






lemma stable_argsort_ok: "argsort_ok stable_argsort"
proof -
  have "sorted (map (\<lambda>i. ks ! i) (stable_argsort ks))" for ks :: "xrat list"
    unfolding stable_argsort_def by (rule sorted_sort_key)
  then show ?thesis
    by (simp add: argsort_ok_def) (simp add: stable_argsort_def)
qed

subsection \<open>Rows with and without a value\<close>

lemma missing_valued_mset:
  "mset (map with_value (valued rows)) + mset (missing rows) = mset rows"
  by (induction rows rule: valued.induct) (simp_all add: missing_def with_value_def)

lemma valued_no_nan:
  "NaN \<notin> snd ` set rows \<Longrightarrow> map with_value (valued rows) = rows \<and> missing rows = []"
proof (induction rows rule: valued.induct)
  case 1
  then show ?case by (simp add: missing_def)
next
  case (2 s rows)
  then show ?case by simp
next
  case (3 s x rows)
  then show ?case by (simp add: missing_def with_value_def)
qed






subsection \<open>sort_values\<close>

lemma mset_sort_values:
  assumes "argsort_ok kind"
  shows "mset (sort_values kind ascending rows) = mset rows"
proof -
  have "mset (sort_values kind ascending rows)
      = image_mset with_value (mset (if ascending then valued rows else rev (valued rows)))
        + mset (missing rows)"
    by (simp add: sort_values_def Let_def argsort_ok_mset [OF assms])
  also have "\<dots> = mset (map with_value (valued rows)) + mset (missing rows)"
    by simp
  finally show ?thesis by (simp only: missing_valued_mset)
qed

lemma length_sort_values:
  "argsort_ok kind \<Longrightarrow> length (sort_values kind ascending rows) = length rows"
  using mset_sort_values [of kind ascending rows] by (metis size_mset)



lemma get_top_gainers_losers_Quotes:
  assumes "astype_float (map snd rows) = Inr vs"
  shows "get_top_gainers_losers kind (Quotes rows) =
     (Quotes (map (\<lambda>r. (fst r, Num (snd r))) (zip (map fst rows) vs)),
      Inr (take 5 (sort_values kind False (zip (map fst rows) vs)),
           take 5 (sort_values kind True (zip (map fst rows) vs))))"
  using assms by (simp add: get_top_gainers_losers_def Let_def)

lemma get_top_gainers_losers_error:
  assumes "astype_float (map snd rows) = Inl e"
  shows "get_top_gainers_losers kind (Quotes rows) = (Quotes rows, Inl e)"
  using assms by (simp add: get_top_gainers_losers_def)



lemma astype_float_Num: "astype_float (map Num vs) = Inr vs"
  by (induction vs) (simp_all add: astype_float_def)

lemma astype_float_length: "astype_float col = Inr vs \<Longrightarrow> length vs = length col"
  by (auto simp: astype_float_def dest: collect_map_Inr)

lemma sorted_with_value_ascending:
  "sorted_wrt (\<lambda>a b. float_le (snd a) (snd b)) (map with_value ys) \<longleftrightarrow> sorted (map snd ys)"
  by (simp add: sorted_wrt_map sorted_map float_le_def with_value_def)

lemma sorted_with_value_descending:
  "sorted_wrt (\<lambda>a b. float_le (snd b) (snd a)) (map with_value (rev ys)) \<longleftrightarrow> sorted (map snd ys)"
  by (simp add: sorted_wrt_map sorted_map float_le_def with_value_def sorted_wrt_rev rev_map [symmetric]
      del: rev_map)

lemma sort_values_ascending:
  assumes "argsort_ok kind" and "NaN \<notin> snd ` set rows"
  shows "sorted_wrt (\<lambda>a b. float_le (snd a) (snd b)) (sort_values kind True rows)"
  using valued_no_nan [OF assms(2)]
  by (simp add: sort_values_def Let_def sorted_with_value_ascending argsort_ok_sorted [OF assms(1)])

lemma sort_values_descending:
  assumes "argsort_ok kind" and "NaN \<notin> snd ` set rows"
  shows "sorted_wrt (\<lambda>a b. float_le (snd b) (snd a)) (sort_values kind False rows)"
  using valued_no_nan [OF assms(2)]
  by (simp add: sort_values_def Let_def sorted_with_value_descending argsort_ok_sorted [OF assms(1)])

lemma mset_take_subset: "mset (take n xs) \<subseteq># mset xs"
proof -
  have "mset xs = mset (take n xs) + mset (drop n xs)"
    by (metis append_take_drop_id mset_append)
  then show ?thesis by simp
qed

lemmas eval_float = py_float_def split_sign_def strip_def is_space_def to_lower_def floatnumber_def
  is_digit_def exponent_def digits_value_def

lemmas eval_top = get_top_gainers_losers_def astype_float_def sort_values_def stable_argsort_def
  take_rows_def missing_def with_value_def Let_def




lemma rebuild_float_rows:
  "map snd rows = map Num vs \<Longrightarrow> map (\<lambda>r. (fst r, Num (snd r))) (zip (map fst rows) vs) = rows"
proof (induction rows arbitrary: vs)
  case Nil
  then show ?case by simp
next
  case (Cons r rows)
  then obtain v vs' where "vs = v # vs'" by (cases vs) auto
  with Cons show ?case by (cases r) auto
qed

section \<open>Claims about the live table analysis\<close>




text \<open>
  Claim C2, as amended. \<^verbatim>\<open>get_top_gainers_losers\<close> keeps the rows and symbols of the
  caller's table. When it raises, the table is as it was. When it returns, the
  \<^verbatim>\<open>pChange\<close> column of the caller's table has been replaced by the converted floats; the
  table is unchanged only if the column already held floats. (The two historical analyses
  are functions of the map alone: their source assigns to no frame and to no key.)
\<close>

theorem pchange_column_overwritten:
  "get_top_gainers_losers kind live_df = (live_df', res) \<Longrightarrow>
     symbols live_df' = symbols live_df \<and>
     (\<forall>err. res = Inl err \<longrightarrow> live_df' = live_df) \<and>
     (\<forall>out. res = Inr out \<longrightarrow>
        (\<exists>col vs. pchange_column live_df = Inr col \<and> astype_float col = Inr vs \<and>
           pchange_column live_df' = Inr (map Num vs))) \<and>
     (\<forall>vs. pchange_column live_df = Inr (map Num vs) \<longrightarrow> live_df' = live_df)"
proof (cases live_df)
  case (NoPChange syms)
  assume "get_top_gainers_losers kind live_df = (live_df', res)"
  with NoPChange show ?thesis
    by (auto simp: get_top_gainers_losers_def)
next
  case (Quotes rows)
  assume call: "get_top_gainers_losers kind live_df = (live_df', res)"
  show ?thesis
  proof (cases "astype_float (map snd rows)")
    case (Inl e)
    with call Quotes have "live_df' = live_df" and "res = Inl e"
      by (simp_all add: get_top_gainers_losers_error)
    with Quotes Inl show ?thesis
      by (auto simp: astype_float_Num)
  next
    case (Inr vs)
    let ?rows = "zip (map fst rows) vs"
    from Inr have len: "length vs = length rows"
      by (simp add: astype_float_length)
    from call Quotes Inr have df': "live_df' = Quotes (map (\<lambda>r. (fst r, Num (snd r))) ?rows)"
      and res: "\<exists>out. res = Inr out"
      by (auto simp: get_top_gainers_losers_Quotes)
    from len have fsts: "map fst ?rows = map fst rows" and snds: "map snd ?rows = vs"
      by simp_all
    have a: "symbols live_df' = symbols live_df"
      using Quotes fsts by (simp add: df' comp_def)
    have "map snd (map (\<lambda>r. (fst r, Num (snd r))) ?rows) = map Num (map snd ?rows)"
      by simp
    then have c: "pchange_column live_df = Inr (map snd rows) \<and> pchange_column live_df' = Inr (map Num vs)"
      using Quotes by (simp only: df' snds pchange_column.simps)
    have d: "live_df' = live_df" if "pchange_column live_df = Inr (map Num ws)" for ws
    proof -
      from that Quotes have eq: "map snd rows = map Num ws" by simp
      with Inr have "ws = vs" by (simp add: astype_float_Num)
      with eq Quotes show ?thesis by (simp add: df' rebuild_float_rows)
    qed
    from a res c d Inr show ?thesis by blast
  qed
qed

theorem pchange_column_overwritten_witness:
  "get_top_gainers_losers stable_argsort (Quotes [(''A'', Text ''5.0%''), (''B'', Num (Val (Finite 1)))])
     = (Quotes [(''A'', Num (Val (Finite 5))), (''B'', Num (Val (Finite 1)))],
        Inr ([(''A'', Val (Finite 5)), (''B'', Val (Finite 1))],
             [(''B'', Val (Finite 1)), (''A'', Val (Finite 5))])) \<and>
   symbols (Quotes [(''A'', Num (Val (Finite 5))), (''B'', Num (Val (Finite 1)))])
     = symbols (Quotes [(''A'', Text ''5.0%''), (''B'', Num (Val (Finite 1)))]) \<and>
   astype_float [Text ''5.0%'', Num (Val (Finite 1))] = Inr [Val (Finite 5), Val (Finite 1)] \<and>
   pchange_column (Quotes [(''A'', Num (Val (Finite 5))), (''B'', Num (Val (Finite 1)))])
     = Inr (map Num [Val (Finite 5), Val (Finite 1)])"
proof -
  have call: "get_top_gainers_losers stable_argsort (Quotes [(''A'', Text ''5.0%''), (''B'', Num (Val (Finite 1)))])
     = (Quotes [(''A'', Num (Val (Finite 5))), (''B'', Num (Val (Finite 1)))],
        Inr ([(''A'', Val (Finite 5)), (''B'', Val (Finite 1))],
             [(''B'', Val (Finite 1)), (''A'', Val (Finite 5))]))"
    by (simp add: eval_top eval_float less_eq_xrat_def)
  from pchange_column_overwritten [OF call] call show ?thesis
    by (simp add: astype_float_def eval_float)
qed

text \<open>
  Claim C2 as stated, the table is unchanged after the call, fails on a table whose cell
  is the string \<^verbatim>\<open>5.0%\<close>: after the call the cell is the float 5.
\<close>

theorem pchange_column_overwritten_counterexample:
  "fst (get_top_gainers_losers stable_argsort (Quotes [(''A'', Text ''5.0%'')]))
     = Quotes [(''A'', Num (Val (Finite 5)))] \<and>
   fst (get_top_gainers_losers stable_argsort (Quotes [(''A'', Text ''5.0%'')]))
     \<noteq> Quotes [(''A'', Text ''5.0%'')]"
  by (simp add: eval_top eval_float)

text \<open>
  Claim C5. For a sorting algorithm that sorts, and a table whose column converts to floats
  none of which is NaN: the gainers and the losers have min(5, number of rows) rows, the
  gainers are sorted descending and the losers ascending by percent change, both are taken
  from the rows of the table, and with at most 5 rows both hold every row, nothing else
  added and no error.
\<close>

theorem top_five_sorted:
  "argsort_ok kind \<Longrightarrow> astype_float (map snd rows) = Inr vs \<Longrightarrow> NaN \<notin> set vs \<Longrightarrow>
     (\<exists>gainers losers.
        snd (get_top_gainers_losers kind (Quotes rows)) = Inr (gainers, losers) \<and>
        length gainers = min 5 (length rows) \<and>
        length losers = min 5 (length rows) \<and>
        sorted_wrt (\<lambda>a b. float_le (snd b) (snd a)) gainers \<and>
        sorted_wrt (\<lambda>a b. float_le (snd a) (snd b)) losers \<and>
        mset gainers \<subseteq># mset (zip (map fst rows) vs) \<and>
        mset losers \<subseteq># mset (zip (map fst rows) vs) \<and>
        (length rows \<le> 5 \<longrightarrow>
           mset gainers = mset (zip (map fst rows) vs) \<and> mset losers = mset (zip (map fst rows) vs)))"
proof -
  assume ok: "argsort_ok kind" and conv: "astype_float (map snd rows) = Inr vs" and nn: "NaN \<notin> set vs"
  let ?rows = "zip (map fst rows) vs"
  let ?g = "take 5 (sort_values kind False ?rows)"
  let ?l = "take 5 (sort_values kind True ?rows)"
  from conv have len: "length ?rows = length rows"
    by (simp add: astype_float_length)
  from nn have no_nan: "NaN \<notin> snd ` set ?rows"
    by (auto dest: set_zip_rightD)
  have res: "snd (get_top_gainers_losers kind (Quotes rows)) = Inr (?g, ?l)"
    by (simp add: get_top_gainers_losers_Quotes [OF conv])
  have lg: "length ?g = min 5 (length rows)" and ll: "length ?l = min 5 (length rows)"
    using len by (simp_all add: length_sort_values [OF ok] min.commute)
  have sg: "sorted_wrt (\<lambda>a b. float_le (snd b) (snd a)) ?g"
    by (rule sorted_wrt_take) (rule sort_values_descending [OF ok no_nan])
  have sl: "sorted_wrt (\<lambda>a b. float_le (snd a) (snd b)) ?l"
    by (rule sorted_wrt_take) (rule sort_values_ascending [OF ok no_nan])
  have mg: "mset ?g \<subseteq># mset ?rows" and ml: "mset ?l \<subseteq># mset ?rows"
    using mset_take_subset [of 5 "sort_values kind False ?rows"]
      mset_take_subset [of 5 "sort_values kind True ?rows"]
    by (simp_all add: mset_sort_values [OF ok])
  have all: "length rows \<le> 5 \<longrightarrow> mset ?g = mset ?rows \<and> mset ?l = mset ?rows"
    using len by (simp add: length_sort_values [OF ok] mset_sort_values [OF ok])
  from res lg ll sg sl mg ml all show ?thesis by blast
qed

theorem top_five_sorted_witness:
  "argsort_ok stable_argsort \<and>
   astype_float (map snd [(''P'', Text ''1.5%''), (''Q'', Num (Val (Finite 4))), (''R'', Text ''-2'')])
     = Inr [Val (Finite (3 / 2)), Val (Finite 4), Val (Finite (- 2))] \<and>
   NaN \<notin> set [Val (Finite (3 / 2)), Val (Finite 4), Val (Finite (- 2))] \<and>
   length [(''P'', Text ''1.5%''), (''Q'', Num (Val (Finite 4))), (''R'', Text ''-2'')] \<le> 5 \<and>
   snd (get_top_gainers_losers stable_argsort
          (Quotes [(''P'', Text ''1.5%''), (''Q'', Num (Val (Finite 4))), (''R'', Text ''-2'')]))
     = Inr ([(''Q'', Val (Finite 4)), (''P'', Val (Finite (3 / 2))), (''R'', Val (Finite (- 2)))],
            [(''R'', Val (Finite (- 2))), (''P'', Val (Finite (3 / 2))), (''Q'', Val (Finite 4))])"
  using top_five_sorted [OF stable_argsort_ok,
      of "[(''P'', Text ''1.5%''), (''Q'', Num (Val (Finite 4))), (''R'', Text ''-2'')]"
         "[Val (Finite (3 / 2)), Val (Finite 4), Val (Finite (- 2))]"]
    stable_argsort_ok
  by (simp add: eval_top eval_float less_eq_xrat_def)




end
